theory Spec2Isabelle
  imports Main
begin

section \<open>Strings, lines and numbers\<close>

text \<open>
  The patch engine of \<^verbatim>\<open>frontend/src/utils/codeDiffProcessor.ts\<close> works on
  JavaScript strings. A string is modelled as a \<^typ>\<open>string\<close>, one \<^typ>\<open>char\<close> for
  each code unit in the range U+0000 to U+00FF.

  Numbers are integers here: \<^typ>\<open>nat\<close> where the source only counts upwards,
  \<^typ>\<open>int\<close> where it subtracts. A number of the source is an IEEE double. It holds
  an integer exactly when that is a safe integer (\<^verbatim>\<open>Number.isSafeInteger\<close>, below
  \<open>2^53\<close> in absolute value): on safe integers \<^verbatim>\<open>parseInt\<close>, sums and differences
  with a safe result, comparisons and the printing inside a template literal are exact,
  and that is what the definitions below give. On a longer digit string the source
  rounds to the nearest double and prints that double (with an exponent from \<open>1e21\<close>
  on); the definitions do not follow it there. A theorem whose statement contains a
  number parsed from a header or printed into a message, and whose other hypotheses do
  not already bound that number by the length of a buffer, takes the bound as a
  hypothesis.
\<close>

definition safeInteger :: "int \<Rightarrow> bool" where
  "safeInteger n = (\<bar>n\<bar> < 2 ^ 53)"

abbreviation nl :: char where
  "nl \<equiv> CHR 0x0A"

abbreviation dquote :: string where
  "dquote \<equiv> [CHR 0x22]"

text \<open>\<^verbatim>\<open>s.split('\n')\<close>: the pieces between line feeds; never an empty array.\<close>

fun splitLines :: "string \<Rightarrow> string list" where
  "splitLines [] = [[]]"
| "splitLines (c # cs) =
     (if c = nl then [] # splitLines cs
      else (case splitLines cs of [] \<Rightarrow> [[c]] | l # ls \<Rightarrow> (c # l) # ls))"

text \<open>\<^verbatim>\<open>xs.join('\n')\<close>.\<close>

fun joinLines :: "string list \<Rightarrow> string" where
  "joinLines [] = []"
| "joinLines [l] = l"
| "joinLines (l # m # ls) = l @ nl # joinLines (m # ls)"

text \<open>
  The white space of \<^verbatim>\<open>String.prototype.trim\<close> and of the regular expression class
  \<^verbatim>\<open>\s\<close> (both are WhiteSpace and LineTerminator), below U+0100: TAB, LF, VT, FF, CR,
  SP and NBSP.
\<close>

definition isWhiteSpace :: "char \<Rightarrow> bool" where
  "isWhiteSpace c =
     (c = CHR 0x09 \<or> c = CHR 0x0A \<or> c = CHR 0x0B \<or> c = CHR 0x0C \<or> c = CHR 0x0D
      \<or> c = CHR 0x20 \<or> c = CHR 0xA0)"

definition trim :: "string \<Rightarrow> string" where
  "trim s = rev (dropWhile isWhiteSpace (rev (dropWhile isWhiteSpace s)))"

text \<open>\<^verbatim>\<open>s.startsWith(p)\<close> and \<^verbatim>\<open>s.includes(p)\<close>.\<close>

definition startsWith :: "string \<Rightarrow> string \<Rightarrow> bool" where
  "startsWith s p = (take (length p) s = p)"

fun includesStr :: "string \<Rightarrow> string \<Rightarrow> bool" where
  "includesStr [] p = (p = [])"
| "includesStr (c # cs) p = (startsWith (c # cs) p \<or> includesStr cs p)"

text \<open>\<^verbatim>\<open>xs[i]\<close>: \<^verbatim>\<open>undefined\<close> (here \<open>None\<close>) outside the array.\<close>

definition lineAt :: "string list \<Rightarrow> int \<Rightarrow> string option" where
  "lineAt xs i = (if 0 \<le> i \<and> i < int (length xs) then Some (xs ! nat i) else None)"

text \<open>
  The regular expression class \<^verbatim>\<open>\d\<close>, and \<^verbatim>\<open>parseInt\<close> on a match of \<^verbatim>\<open>\d+\<close>:
  the value of the decimal digits. It is the number of the source when it is a safe
  integer.
\<close>

definition isDigit :: "char \<Rightarrow> bool" where
  "isDigit c = (c \<in> set ''0123456789'')"

definition parseInt :: "string \<Rightarrow> nat" where
  "parseInt ds = foldl (\<lambda>n c. 10 * n + (of_char c - 48)) 0 ds"

text \<open>
  A number inside a template literal: the decimal digits of a safe integer, with a sign
  when it is negative.
\<close>

function showNat :: "nat \<Rightarrow> string" where
  "showNat n =
     (if n < 10 then [''0123456789'' ! n]
      else showNat (n div 10) @ [''0123456789'' ! (n mod 10)])"
  by pat_completeness auto
termination
  by (relation "measure id") auto

declare showNat.simps [simp del]

definition showInt :: "int \<Rightarrow> string" where
  "showInt i = (if i < 0 then ''-'' @ showNat (nat (- i)) else showNat (nat i))"

text \<open>
  The message of the TypeError that reading a property of \<^verbatim>\<open>undefined\<close> throws. The
  source fixes only the text around it; this is the engine's wording.
\<close>

definition undefinedReadMessage :: "string \<Rightarrow> string" where
  "undefinedReadMessage p =
     ''Cannot read properties of undefined (reading '' @ [CHR 0x27] @ p @ [CHR 0x27] @ '')''"

section \<open>Data model\<close>

text \<open>
  \<^verbatim>\<open>DiffLine\<close>, \<^verbatim>\<open>DiffHunk\<close> and \<^verbatim>\<open>DiffResult\<close>. The optional
  \<^verbatim>\<open>originalNumber\<close> of a \<^verbatim>\<open>DiffLine\<close> is never written or read and is left out.
  An optional field is an \<^typ>\<open>'a option\<close>.
\<close>

datatype LineType = Context | Remove | Add

record DiffLine =
  type :: LineType
  content :: string

record DiffHunk =
  oldStart :: nat
  oldLines :: nat
  newStart :: nat
  newLines :: nat
  lines :: "DiffLine list"

record DiffResult =
  success :: bool
  newContent :: "string option"
  error :: "string option"
  appliedHunks :: nat
  totalHunks :: nat
  warnings :: "string list"

datatype SafetyLevel = Safe | Caution | Review

record SafetyResult =
  safe :: bool
  level :: SafetyLevel
  issues :: "string list"

definition MAX_CONTEXT_LINES :: nat where
  "MAX_CONTEXT_LINES = 3"

definition MAX_HUNK_SIZE :: nat where
  "MAX_HUNK_SIZE = 100"

section \<open>Parsing\<close>

text \<open>
  A failure result \<^verbatim>\<open>{ success: false, error }\<close> of the private functions is \<open>Inl\<close>
  with the error text, a success is \<open>Inr\<close> with what the result carries. Each function
  of the source runs inside \<^verbatim>\<open>try\<close>. The only operation in them that can throw is a
  method call on an array element that is not there (\<^verbatim>\<open>undefined\<close>): the header read by
  \<^verbatim>\<open>parseHunk\<close> and the buffer line read by \<^verbatim>\<open>validateHunkContext\<close>. These two reads
  are modelled with \<^const>\<open>lineAt\<close> and the result of their \<^verbatim>\<open>catch\<close>. Every other
  array read stands under a loop condition or test that keeps the index inside the
  array, so the remaining \<^verbatim>\<open>catch\<close> clauses have no branch here.
\<close>

subsection \<open>The hunk header\<close>

text \<open>
  \<^verbatim>\<open>/^@@\s+-?(\d+)(?:,(\d+))?\s+\+?(\d+)(?:,(\d+))?\s+@@/\<close>, piece by piece. No piece
  can give back what it took: after \<^verbatim>\<open>\s+\<close> comes a sign, a digit or \<^verbatim>\<open>@\<close>, after
  \<^verbatim>\<open>\d+\<close> a comma or white space, so the greedy match is the only one.
\<close>

definition matchSpaces :: "string \<Rightarrow> string option" where
  "matchSpaces s =
     (if takeWhile isWhiteSpace s = [] then None else Some (dropWhile isWhiteSpace s))"

definition matchOptChar :: "char \<Rightarrow> string \<Rightarrow> string" where
  "matchOptChar c s = (case s of [] \<Rightarrow> s | x # xs \<Rightarrow> if x = c then xs else s)"

definition matchDigits :: "string \<Rightarrow> (string \<times> string) option" where
  "matchDigits s =
     (if takeWhile isDigit s = [] then None
      else Some (takeWhile isDigit s, dropWhile isDigit s))"

definition matchOptCount :: "string \<Rightarrow> string option \<times> string" where
  "matchOptCount s =
     (case s of
        [] \<Rightarrow> (None, s)
      | x # xs \<Rightarrow>
          if x = CHR '','' then
            (case matchDigits xs of None \<Rightarrow> (None, s) | Some (ds, r) \<Rightarrow> (Some ds, r))
          else (None, s))"

definition matchHunkHeader ::
  "string \<Rightarrow> (string \<times> string option \<times> string \<times> string option) option" where
  "matchHunkHeader h =
     (if \<not> startsWith h ''@@'' then None
      else case matchSpaces (drop 2 h) of None \<Rightarrow> None | Some r1 \<Rightarrow>
        (case matchDigits (matchOptChar CHR ''-'' r1) of None \<Rightarrow> None | Some (g1, r2) \<Rightarrow>
          (case matchOptCount r2 of (g2, r3) \<Rightarrow>
            (case matchSpaces r3 of None \<Rightarrow> None | Some r4 \<Rightarrow>
              (case matchDigits (matchOptChar CHR ''+'' r4) of None \<Rightarrow> None | Some (g3, r5) \<Rightarrow>
                (case matchOptCount r5 of (g4, r6) \<Rightarrow>
                  (case matchSpaces r6 of None \<Rightarrow> None | Some r7 \<Rightarrow>
                    if startsWith r7 ''@@'' then Some (g1, g2, g3, g4) else None)))))))"

subsection \<open>The hunk body\<close>

text \<open>
  The classification of one body line (the \<^verbatim>\<open>if\<close> and \<^verbatim>\<open>switch\<close> inside the
  loop of \<^verbatim>\<open>parseHunk\<close>).
\<close>

definition parseHunkLine :: "string \<Rightarrow> DiffLine" where
  "parseHunkLine line =
     (if line = [] \<or> (\<not> startsWith line '' '' \<and> \<not> startsWith line ''-'' \<and> \<not> startsWith line ''+'')
      then \<lparr>type = Context, content = line\<rparr>
      else (let pfx = hd line; cont = tl line in
        if pfx = CHR '' '' then \<lparr>type = Context, content = cont\<rparr>
        else if pfx = CHR ''-'' then \<lparr>type = Remove, content = cont\<rparr>
        else if pfx = CHR ''+'' then \<lparr>type = Add, content = cont\<rparr>
        else \<lparr>type = Context, content = line\<rparr>))"

text \<open>A line that ends a hunk body: the next hunk header or a file header.\<close>

definition isHunkEnd :: "string \<Rightarrow> bool" where
  "isHunkEnd line = (startsWith line ''@@'' \<or> startsWith line ''---'' \<or> startsWith line ''+++'')"

text \<open>
  The \<^verbatim>\<open>while\<close> loop of \<^verbatim>\<open>parseHunk\<close>, from index \<open>i\<close> with the lines
  collected so far; it returns the lines and the index it stopped at.
\<close>

function parseHunkLines ::
  "string list \<Rightarrow> nat \<Rightarrow> nat \<Rightarrow> DiffLine list \<Rightarrow> DiffLine list \<times> nat" where
  "parseHunkLines inputLines expectedLines i hunkLines =
     (if i < length inputLines \<and> length hunkLines < expectedLines then
        (if isHunkEnd (inputLines ! i) then (hunkLines, i)
         else parseHunkLines inputLines expectedLines (i + 1)
                (hunkLines @ [parseHunkLine (inputLines ! i)]))
      else (hunkLines, i))"
  by pat_completeness auto
termination
  by (relation "measure (\<lambda>(inputLines, expectedLines, i, hunkLines). length inputLines - i)") auto

declare parseHunkLines.simps [simp del]

definition parseHunk :: "string list \<Rightarrow> nat \<Rightarrow> string + (DiffHunk \<times> nat)" where
  "parseHunk inputLines startIndex =
     (case lineAt inputLines (int startIndex) of
        None \<Rightarrow> Inl (''Hunk parsing failed: '' @ undefinedReadMessage ''match'')
      | Some hunkHeader \<Rightarrow>
         (case matchHunkHeader hunkHeader of
            None \<Rightarrow> Inl (''Invalid hunk header format: '' @ hunkHeader)
          | Some (g1, g2, g3, g4) \<Rightarrow>
              (let oldStart' = parseInt g1;
                   oldLines' = (case g2 of Some d \<Rightarrow> parseInt d | None \<Rightarrow> 1);
                   newStart' = parseInt g3;
                   newLines' = (case g4 of Some d \<Rightarrow> parseInt d | None \<Rightarrow> 1)
               in
                 if oldLines' > MAX_HUNK_SIZE \<or> newLines' > MAX_HUNK_SIZE then
                   Inl (''Hunk too large ('' @ showNat (max oldLines' newLines')
                        @ '' lines, max '' @ showNat MAX_HUNK_SIZE @ '')'')
                 else
                   (case parseHunkLines inputLines (max oldLines' newLines' + 10)
                           (startIndex + 1) [] of
                      (hunkLines, i) \<Rightarrow>
                        Inr (\<lparr>oldStart = oldStart', oldLines = oldLines',
                              newStart = newStart', newLines = newLines',
                              lines = hunkLines\<rparr>, i)))))"

subsection \<open>The whole diff\<close>

text \<open>The \<^verbatim>\<open>while\<close> loop of \<^verbatim>\<open>parseDiff\<close>, and \<^verbatim>\<open>parseDiff\<close>.\<close>

function parseDiffLoop :: "string list \<Rightarrow> nat \<Rightarrow> DiffHunk list \<Rightarrow> string + DiffHunk list" where
  "parseDiffLoop inputLines i hunks =
     (if i < length inputLines then
        (if startsWith (inputLines ! i) ''---'' then parseDiffLoop inputLines (i + 1) hunks
         else if startsWith (inputLines ! i) ''+++'' then parseDiffLoop inputLines (i + 1) hunks
         else if startsWith (inputLines ! i) ''@@'' then
           (case parseHunk inputLines i of
              Inr (hunk, nextIndex) \<Rightarrow> parseDiffLoop inputLines nextIndex (hunks @ [hunk])
            | Inl err \<Rightarrow> Inl (''Invalid hunk at line '' @ showNat (i + 1) @ '': '' @ err))
         else parseDiffLoop inputLines (i + 1) hunks)
      else Inr hunks)"
  by pat_completeness auto
termination
proof (relation "measure (\<lambda>(inputLines, i, hunks). length inputLines - i)")
  fix inputLines :: "string list" and i :: nat and hunks :: "DiffHunk list"
    and x :: "DiffHunk \<times> nat" and hunk :: DiffHunk and nextIndex :: nat
  assume lt: "i < length inputLines"
    and p: "parseHunk inputLines i = Inr x" and x: "(hunk, nextIndex) = x"
  have idx: "j \<le> snd (parseHunkLines ls e j acc)" for ls e j acc
  proof (induction ls e j acc rule: parseHunkLines.induct)
    case (1 ls e j acc)
    show ?case
    proof (cases "j < length ls \<and> length acc < e \<and> \<not> isHunkEnd (ls ! j)")
      case True
      then have "parseHunkLines ls e j acc =
          parseHunkLines ls e (j + 1) (acc @ [parseHunkLine (ls ! j)])"
        by (subst parseHunkLines.simps) simp
      moreover have "j + 1 \<le> snd (parseHunkLines ls e (j + 1) (acc @ [parseHunkLine (ls ! j)]))"
        using "1.IH" True by simp
      ultimately show ?thesis by simp
    next
      case False
      then have "parseHunkLines ls e j acc = (acc, j)"
        by (subst parseHunkLines.simps) auto
      then show ?thesis by simp
    qed
  qed
  from p x obtain e hl where "parseHunkLines inputLines e (i + 1) [] = (hl, nextIndex)"
    by (auto simp: parseHunk_def Let_def split: option.splits if_splits prod.splits)
  then have "i < nextIndex"
    using idx [of "i + 1" inputLines e "[]"] by simp
  with lt
  show "((inputLines, nextIndex, hunks @ [hunk]), (inputLines, i, hunks))
          \<in> measure (\<lambda>(inputLines, i, hunks). length inputLines - i)"
    by simp
qed auto

declare parseDiffLoop.simps [simp del]

definition parseDiff :: "string \<Rightarrow> string + DiffHunk list" where
  "parseDiff diffString = parseDiffLoop (splitLines diffString) 0 []"

section \<open>Applying a diff\<close>

subsection \<open>Context validation\<close>

text \<open>
  The \<^verbatim>\<open>for\<close> loop of \<^verbatim>\<open>validateHunkContext\<close> over the context and remove lines
  that are left, with the index into the buffer. \<open>Inl\<close> is a failure with its
  error, \<open>Inr ()\<close> is \<^verbatim>\<open>{ success: true }\<close>. Reading a line that is not there
  would throw inside \<^verbatim>\<open>try\<close>; the \<^verbatim>\<open>catch\<close> turns that into a failure.
\<close>

fun validateLines :: "string list \<Rightarrow> DiffLine list \<Rightarrow> int \<Rightarrow> string + unit" where
  "validateLines originalLines [] originalIndex = Inr ()"
| "validateLines originalLines (diffLine # rest) originalIndex =
     (if originalIndex \<ge> int (length originalLines) then Inl ''Hunk extends beyond end of file''
      else if type diffLine = Context \<or> type diffLine = Remove then
        (case lineAt originalLines originalIndex of
           None \<Rightarrow> Inl (''Context validation error: '' @ undefinedReadMessage ''trim'')
         | Some originalLine \<Rightarrow>
             if trim originalLine \<noteq> trim (content diffLine) then
               Inl (''Line '' @ showInt (originalIndex + 1)
                    @ '' doesn't match expected content. Expected: '' @ dquote
                    @ trim (content diffLine) @ dquote @ '', Got: '' @ dquote
                    @ trim originalLine @ dquote)
             else validateLines originalLines rest (originalIndex + 1))
      else validateLines originalLines rest (originalIndex + 1))"

definition contextLines :: "DiffHunk \<Rightarrow> DiffLine list" where
  "contextLines hunk = filter (\<lambda>line. type line = Context \<or> type line = Remove) (lines hunk)"

definition validateHunkContext :: "string list \<Rightarrow> DiffHunk \<Rightarrow> int \<Rightarrow> string + unit" where
  "validateHunkContext originalLines hunk startIndex =
     validateLines originalLines (contextLines hunk) startIndex"

subsection \<open>One hunk\<close>

text \<open>
  The \<^verbatim>\<open>while\<close> loop of \<^verbatim>\<open>applyHunk\<close> over the hunk lines that are left.
  \<open>originalLength\<close> is \<^verbatim>\<open>originalLines.length\<close>, which the loop compares the cursor
  with on a context line. \<^verbatim>\<open>splice(i, 1)\<close> removes the element at \<open>i\<close>;
  \<^verbatim>\<open>splice(i, 0, x)\<close> inserts \<open>x\<close> before it, at the end when \<open>i\<close> is past it.
\<close>

fun applyHunkLines ::
  "nat \<Rightarrow> DiffLine list \<Rightarrow> string list \<Rightarrow> nat \<Rightarrow> int \<Rightarrow> string list \<times> int" where
  "applyHunkLines originalLength [] resultLines originalIndex linesDelta =
     (resultLines, linesDelta)"
| "applyHunkLines originalLength (diffLine # rest) resultLines originalIndex linesDelta =
     (case type diffLine of
        Context \<Rightarrow>
          applyHunkLines originalLength rest resultLines
            (if originalIndex < originalLength then originalIndex + 1 else originalIndex)
            linesDelta
      | Remove \<Rightarrow>
          (if originalIndex < length resultLines then
             applyHunkLines originalLength rest
               (take originalIndex resultLines @ drop (originalIndex + 1) resultLines)
               originalIndex (linesDelta - 1)
           else applyHunkLines originalLength rest resultLines originalIndex linesDelta)
      | Add \<Rightarrow>
          applyHunkLines originalLength rest
            (take originalIndex resultLines @ content diffLine # drop originalIndex resultLines)
            (originalIndex + 1) (linesDelta + 1))"

text \<open>\<^verbatim>\<open>applyHunk\<close>: \<open>Inr\<close> carries \<^verbatim>\<open>newLines\<close> and \<^verbatim>\<open>lineOffset\<close>.\<close>

definition applyHunk :: "string list \<Rightarrow> DiffHunk \<Rightarrow> int \<Rightarrow> string + (string list \<times> int)" where
  "applyHunk originalLines hunk currentOffset =
     (let adjustedOldStart = int (oldStart hunk) + currentOffset - 1 in
      if adjustedOldStart < 0 \<or> adjustedOldStart \<ge> int (length originalLines) then
        Inl (''Hunk start line '' @ showInt (adjustedOldStart + 1)
             @ '' is outside file bounds (1-'' @ showNat (length originalLines) @ '')'')
      else
        (case validateHunkContext originalLines hunk adjustedOldStart of
           Inl err \<Rightarrow> Inl (''Context validation failed: '' @ err)
         | Inr _ \<Rightarrow>
             Inr (applyHunkLines (length originalLines) (lines hunk) originalLines
                    (nat adjustedOldStart) 0)))"

subsection \<open>All hunks\<close>

text \<open>
  The \<^verbatim>\<open>for\<close> loop of \<^verbatim>\<open>applyCodeDiff\<close> over the hunks that are left, with the
  buffer, the running offset, the count of applied hunks and the warnings; the first
  failing hunk ends it.
\<close>

fun applyHunks ::
  "DiffHunk list \<Rightarrow> string list \<Rightarrow> int \<Rightarrow> nat \<Rightarrow> nat \<Rightarrow> string list \<Rightarrow> DiffResult" where
  "applyHunks [] resultLines lineOffset appliedN totalN warns =
     \<lparr>success = True, newContent = Some (joinLines resultLines), error = None,
      appliedHunks = appliedN, totalHunks = totalN, warnings = warns\<rparr>"
| "applyHunks (hunk # rest) resultLines lineOffset appliedN totalN warns =
     (case applyHunk resultLines hunk lineOffset of
        Inr (newLines', delta) \<Rightarrow>
          applyHunks rest newLines' (lineOffset + delta) (appliedN + 1) totalN warns
      | Inl err \<Rightarrow>
          \<lparr>success = False, newContent = None,
           error = Some (''Failed to apply hunk '' @ showNat (appliedN + 1) @ '': '' @ err),
           appliedHunks = appliedN, totalHunks = totalN,
           warnings = warns @ [''Hunk '' @ showNat (appliedN + 1) @ '' failed: '' @ err]\<rparr>)"

definition applyCodeDiff :: "string \<Rightarrow> string \<Rightarrow> DiffResult" where
  "applyCodeDiff originalContent diffString =
     (case parseDiff diffString of
        Inl err \<Rightarrow>
          \<lparr>success = False, newContent = None, error = Some err,
           appliedHunks = 0, totalHunks = 0, warnings = []\<rparr>
      | Inr hunks \<Rightarrow>
          if length hunks = 0 then
            \<lparr>success = False, newContent = None, error = Some ''No valid hunks found in diff'',
             appliedHunks = 0, totalHunks = 0, warnings = []\<rparr>
          else applyHunks hunks (splitLines originalContent) 0 0 (length hunks) [])"

section \<open>Generating a diff\<close>

text \<open>
  The first loop of \<^verbatim>\<open>generateDiff\<close> keeps \<^verbatim>\<open>changeStart\<close> and \<^verbatim>\<open>changeEnd\<close>,
  both \<open>-1\<close> at first; it reads \<^verbatim>\<open>xs[i] || ''\<close>, the empty string for a line that
  is not there.
\<close>

definition lineOrEmpty :: "string list \<Rightarrow> nat \<Rightarrow> string" where
  "lineOrEmpty xs i = (case lineAt xs (int i) of None \<Rightarrow> [] | Some l \<Rightarrow> l)"

definition changeStep :: "string list \<Rightarrow> string list \<Rightarrow> int \<times> int \<Rightarrow> nat \<Rightarrow> int \<times> int" where
  "changeStep originalLines newLines' r i =
     (if lineOrEmpty originalLines i \<noteq> lineOrEmpty newLines' i then
        ((if fst r = -1 then int i else fst r), int i)
      else r)"

definition changeRange :: "string list \<Rightarrow> string list \<Rightarrow> int \<times> int" where
  "changeRange originalLines newLines' =
     foldl (changeStep originalLines newLines') (-1, -1)
       [0 ..< max (length originalLines) (length newLines')]"

text \<open>The body of the second loop: the text emitted for index \<open>i\<close>.\<close>

definition diffLineText :: "string list \<Rightarrow> string list \<Rightarrow> nat \<Rightarrow> string" where
  "diffLineText originalLines newLines' i =
     (let oldLine = lineAt originalLines (int i); newLine = lineAt newLines' (int i) in
      if oldLine = newLine then
        '' '' @ (case oldLine of None \<Rightarrow> [] | Some l \<Rightarrow> l) @ [nl]
      else
        (case oldLine of None \<Rightarrow> [] | Some l \<Rightarrow> ''-'' @ l @ [nl])
        @ (case newLine of None \<Rightarrow> [] | Some l \<Rightarrow> ''+'' @ l @ [nl]))"

definition generateDiff :: "string \<Rightarrow> string \<Rightarrow> string \<Rightarrow> string" where
  "generateDiff originalContent newContent' filePath =
     (let originalLines = splitLines originalContent;
          newLines' = splitLines newContent';
          diff = ''--- a/'' @ filePath @ [nl] @ ''+++ b/'' @ filePath @ [nl];
          maxLines = max (length originalLines) (length newLines');
          (changeStart, changeEnd) = changeRange originalLines newLines'
      in
        if changeStart = -1 then diff
        else
          (let contextStart = max 0 (changeStart - int MAX_CONTEXT_LINES);
               contextEnd = min (int maxLines - 1) (changeEnd + int MAX_CONTEXT_LINES);
               oldCount = contextEnd - contextStart + 1;
               newCount = contextEnd - contextStart + 1
           in
             diff @ ''@@ -'' @ showInt (contextStart + 1) @ '','' @ showInt oldCount
               @ '' +'' @ showInt (contextStart + 1) @ '','' @ showInt newCount @ '' @@'' @ [nl]
               @ concat (map (diffLineText originalLines newLines')
                           [nat contextStart ..< nat (contextEnd + 1)])))"

section \<open>Safety classification\<close>

text \<open>
  The state of the loop of \<^verbatim>\<open>validateDiffSafety\<close>, and its body for one line.
\<close>

record SafetyScan =
  addedLines :: nat
  removedLines :: nat
  hunkCount :: nat
  found :: "string list"
  scanLevel :: SafetyLevel

definition countLine :: "SafetyScan \<Rightarrow> string \<Rightarrow> SafetyScan" where
  "countLine s line =
     (if startsWith line ''@@'' then s\<lparr>hunkCount := hunkCount s + 1\<rparr>
      else if startsWith line ''+'' \<and> \<not> startsWith line ''+++'' then
        s\<lparr>addedLines := addedLines s + 1\<rparr>
      else if startsWith line ''-'' \<and> \<not> startsWith line ''---'' then
        s\<lparr>removedLines := removedLines s + 1\<rparr>
      else s)"

definition flagExecution :: "SafetyScan \<Rightarrow> string \<Rightarrow> SafetyScan" where
  "flagExecution s line =
     (if includesStr line ''eval('' \<or> includesStr line ''exec('' then
        s\<lparr>found := found s @ [''Contains potentially dangerous code execution''],
          scanLevel := Review\<rparr>
      else s)"

definition flagDestructive :: "SafetyScan \<Rightarrow> string \<Rightarrow> SafetyScan" where
  "flagDestructive s line =
     (if includesStr line ''rm -rf'' \<or> includesStr line ''DELETE FROM'' then
        s\<lparr>found := found s @ [''Contains potentially destructive operations''],
          scanLevel := Review\<rparr>
      else s)"

definition scanLine :: "SafetyScan \<Rightarrow> string \<Rightarrow> SafetyScan" where
  "scanLine s line = flagDestructive (flagExecution (countLine s line) line) line"

definition validateDiffSafety :: "string \<Rightarrow> SafetyResult" where
  "validateDiffSafety diffString =
     (let s = foldl scanLine
                \<lparr>addedLines = 0, removedLines = 0, hunkCount = 0, found = [], scanLevel = Safe\<rparr>
                (splitLines diffString);
          s' = (if hunkCount s > 5 \<or> addedLines s + removedLines s > 50 then
                  s\<lparr>found := found s @ [''Large diff - consider manual review''],
                    scanLevel := (if scanLevel s = Safe then Caution else scanLevel s)\<rparr>
                else s)
      in \<lparr>safe = (scanLevel s' \<noteq> Review), level = scanLevel s', issues = found s'\<rparr>)"

section \<open>Notions used to state the claims\<close>

text \<open>
  The buffer and the running offset after the loop of \<^verbatim>\<open>applyCodeDiff\<close> has applied
  a sequence of hunks, none of which failed.
\<close>

fun bufferAfter :: "string list \<Rightarrow> int \<Rightarrow> DiffHunk list \<Rightarrow> (string list \<times> int) option" where
  "bufferAfter buf off [] = Some (buf, off)"
| "bufferAfter buf off (h # hs) =
     (case applyHunk buf h off of
        Inl err \<Rightarrow> None
      | Inr (buf', d) \<Rightarrow> bufferAfter buf' (off + d) hs)"

text \<open>
  The result that \<^verbatim>\<open>applyCodeDiff\<close> returns when a hunk fails with the error \<open>err\<close>
  after \<open>appliedN\<close> hunks were applied (no warning is pushed before that).
\<close>

definition hunkFailure :: "nat \<Rightarrow> nat \<Rightarrow> string \<Rightarrow> DiffResult" where
  "hunkFailure appliedN totalN err =
     \<lparr>success = False, newContent = None,
      error = Some (''Failed to apply hunk '' @ showNat (appliedN + 1) @ '': '' @ err),
      appliedHunks = appliedN, totalHunks = totalN,
      warnings = [''Hunk '' @ showNat (appliedN + 1) @ '' failed: '' @ err]\<rparr>"

text \<open>
  A changed line in the words of the specification: a line that starts with \<^verbatim>\<open>+\<close> or
  \<^verbatim>\<open>-\<close> but not with \<^verbatim>\<open>+++\<close> or \<^verbatim>\<open>---\<close>.
\<close>

definition changedLine :: "string \<Rightarrow> bool" where
  "changedLine line =
     ((startsWith line ''+'' \<or> startsWith line ''-'')
      \<and> \<not> (startsWith line ''+++'' \<or> startsWith line ''---''))"

section \<open>Facts about applying a diff\<close>

lemma showNat_digit: "n < 10 \<Longrightarrow> showNat n = [''0123456789'' ! n]"
  by (subst showNat.simps) simp

lemma showInt_int: "showInt (int n) = showNat n"
  by (simp add: showInt_def)

lemma showInt_Suc: "showInt (int n + 1) = showNat (Suc n)"
proof -
  have "int n + 1 = int (Suc n)" by simp
  then show ?thesis by (simp only: showInt_int)
qed

lemma contextLines_not_Add: "l \<in> set (contextLines hunk) \<Longrightarrow> type l \<noteq> Add"
  by (auto simp: contextLines_def)

lemma applyHunks_first_failure:
  assumes "bufferAfter buf off pre = Some (buf', off')"
    and "applyHunk buf' hunk off' = Inl err"
  shows "applyHunks (pre @ hunk # post) buf off n t w =
     \<lparr>success = False, newContent = None,
      error = Some (''Failed to apply hunk '' @ showNat (n + length pre + 1) @ '': '' @ err),
      appliedHunks = n + length pre, totalHunks = t,
      warnings = w @ [''Hunk '' @ showNat (n + length pre + 1) @ '' failed: '' @ err]\<rparr>"
  using assms
proof (induction pre arbitrary: buf off n)
  case Nil
  then show ?case by simp
next
  case (Cons h hs)
  from Cons.prems(1) obtain b d where h: "applyHunk buf h off = Inr (b, d)"
    and rest: "bufferAfter b (off + d) hs = Some (buf', off')"
    by (auto split: sum.splits)
  from Cons.IH [OF rest Cons.prems(2), of "n + 1"] h show ?case by simp
qed

lemma applyHunks_success:
  "success (applyHunks hs buf off n t w) \<Longrightarrow>
     appliedHunks (applyHunks hs buf off n t w) = n + length hs
     \<and> totalHunks (applyHunks hs buf off n t w) = t"
  by (induction hs arbitrary: buf off n) (auto split: sum.splits)

lemma applyCodeDiff_first_failure:
  assumes "parseDiff diffString = Inr (pre @ hunk # post)"
    and "bufferAfter (splitLines originalContent) 0 pre = Some (buf, off)"
    and "applyHunk buf hunk off = Inl err"
  shows "applyCodeDiff originalContent diffString =
     hunkFailure (length pre) (length (pre @ hunk # post)) err"
  using applyHunks_first_failure [OF assms(2,3), of post 0 "length (pre @ hunk # post)" "[]"]
  by (simp add: applyCodeDiff_def hunkFailure_def assms(1))

lemma validateLines_mismatch:
  assumes "\<forall>l\<in>set ctx. type l \<noteq> Add"
    and "k < length ctx" and "s + k < length buf"
    and "\<forall>j<k. trim (buf ! (s + j)) = trim (content (ctx ! j))"
    and "trim (buf ! (s + k)) \<noteq> trim (content (ctx ! k))"
  shows "validateLines buf ctx (int s) =
     Inl (''Line '' @ showNat (s + k + 1) @ '' doesn't match expected content. Expected: ''
          @ dquote @ trim (content (ctx ! k)) @ dquote @ '', Got: '' @ dquote
          @ trim (buf ! (s + k)) @ dquote)"
  using assms
proof (induction ctx arbitrary: s k)
  case Nil
  then show ?case by simp
next
  case (Cons l rest)
  have ty: "type l = Context \<or> type l = Remove"
    using Cons.prems(1) by (cases "type l") auto
  have inb: "lineAt buf (int s) = Some (buf ! s)"
    using Cons.prems(3) by (simp add: lineAt_def)
  show ?case
  proof (cases k)
    case 0
    with Cons.prems ty inb show ?thesis
      by (simp add: showInt_Suc)
  next
    case (Suc k')
    have first: "trim (buf ! s) = trim (content l)"
      using Cons.prems(4) Suc by (erule_tac x = 0 in allE) simp
    have step: "int s + 1 = int (Suc s)" by simp
    have "validateLines buf rest (int s + 1) =
       Inl (''Line '' @ showNat (Suc s + k' + 1) @ '' doesn't match expected content. Expected: ''
          @ dquote @ trim (content (rest ! k')) @ dquote @ '', Got: '' @ dquote
          @ trim (buf ! (Suc s + k')) @ dquote)"
      unfolding step
    proof (rule Cons.IH)
      show "\<forall>l\<in>set rest. type l \<noteq> Add" using Cons.prems(1) by simp
      show "k' < length rest" using Cons.prems(2) Suc by simp
      show "Suc s + k' < length buf" using Cons.prems(3) Suc by simp
      show "\<forall>j<k'. trim (buf ! (Suc s + j)) = trim (content (rest ! j))"
      proof (intro allI impI)
        fix j assume "j < k'"
        then have "Suc j < k" using Suc by simp
        with Cons.prems(4) have "trim (buf ! (s + Suc j)) = trim (content ((l # rest) ! Suc j))"
          by blast
        then show "trim (buf ! (Suc s + j)) = trim (content (rest ! j))" by simp
      qed
      show "trim (buf ! (Suc s + k')) \<noteq> trim (content (rest ! k'))"
        using Cons.prems(5) Suc by simp
    qed
    then show ?thesis
      using Cons.prems(3) first inb Suc by simp
  qed
qed

lemma validateLines_overrun:
  assumes "\<forall>l\<in>set ctx. type l \<noteq> Add"
    and "s \<le> length buf" and "length buf - s < length ctx"
    and "\<forall>j<length buf - s. trim (buf ! (s + j)) = trim (content (ctx ! j))"
  shows "validateLines buf ctx (int s) = Inl ''Hunk extends beyond end of file''"
  using assms
proof (induction ctx arbitrary: s)
  case Nil
  then show ?case by simp
next
  case (Cons l rest)
  show ?case
  proof (cases "s = length buf")
    case True
    then show ?thesis by simp
  next
    case False
    with Cons.prems(2) have lt: "s < length buf" by simp
    then have inb: "lineAt buf (int s) = Some (buf ! s)"
      by (simp add: lineAt_def)
    have first: "trim (buf ! s) = trim (content l)"
      using Cons.prems(4) lt by (erule_tac x = 0 in allE) simp
    have step: "int s + 1 = int (Suc s)" by simp
    have "validateLines buf rest (int s + 1) = Inl ''Hunk extends beyond end of file''"
      unfolding step
    proof (rule Cons.IH)
      show "\<forall>l\<in>set rest. type l \<noteq> Add" using Cons.prems(1) by simp
      show "Suc s \<le> length buf" using lt by simp
      show "length buf - Suc s < length rest" using Cons.prems(3) lt by simp
      show "\<forall>j<length buf - Suc s. trim (buf ! (Suc s + j)) = trim (content (rest ! j))"
      proof (intro allI impI)
        fix j assume "j < length buf - Suc s"
        then have "Suc j < length buf - s" by simp
        with Cons.prems(4) have "trim (buf ! (s + Suc j)) = trim (content ((l # rest) ! Suc j))"
          by blast
        then show "trim (buf ! (Suc s + j)) = trim (content (rest ! j))" by simp
      qed
    qed
    then show ?thesis
      using lt first inb by simp
  qed
qed

lemma first_mismatch:
  assumes "P (k::nat)"
  shows "\<exists>j\<le>k. P j \<and> (\<forall>i<j. \<not> P i)"
proof (intro exI conjI)
  show "(LEAST j. P j) \<le> k" using assms by (rule Least_le)
  show "P (LEAST j. P j)" using assms by (rule LeastI)
  show "\<forall>i<LEAST j. P j. \<not> P i" using not_less_Least by blast
qed

lemma applyHunk_out_of_bounds:
  assumes "int (oldStart hunk) + off - 1 < 0 \<or> int (oldStart hunk) + off - 1 \<ge> int (length buf)"
  shows "applyHunk buf hunk off =
     Inl (''Hunk start line '' @ showInt (int (oldStart hunk) + off)
          @ '' is outside file bounds (1-'' @ showNat (length buf) @ '')'')"
  using assms by (auto simp: applyHunk_def Let_def)

lemma applyHunk_mismatch:
  assumes "int (oldStart hunk) + off - 1 = int s" and "s < length buf"
    and "k < length (contextLines hunk)" and "s + k < length buf"
    and "\<forall>j<k. trim (buf ! (s + j)) = trim (content (contextLines hunk ! j))"
    and "trim (buf ! (s + k)) \<noteq> trim (content (contextLines hunk ! k))"
  shows "applyHunk buf hunk off =
     Inl (''Context validation failed: Line '' @ showNat (s + k + 1)
          @ '' doesn't match expected content. Expected: ''
          @ dquote @ trim (content (contextLines hunk ! k)) @ dquote @ '', Got: '' @ dquote
          @ trim (buf ! (s + k)) @ dquote)"
proof -
  have "validateLines buf (contextLines hunk) (int s) =
     Inl (''Line '' @ showNat (s + k + 1) @ '' doesn't match expected content. Expected: ''
          @ dquote @ trim (content (contextLines hunk ! k)) @ dquote @ '', Got: '' @ dquote
          @ trim (buf ! (s + k)) @ dquote)"
    using assms(3-6) contextLines_not_Add by (intro validateLines_mismatch) auto
  then show ?thesis
    using assms(1,2) by (simp add: applyHunk_def Let_def validateHunkContext_def)
qed

lemma applyHunk_overrun:
  assumes "int (oldStart hunk) + off - 1 = int s" and "s < length buf"
    and "length buf - s < length (contextLines hunk)"
    and "\<forall>j<length buf - s. trim (buf ! (s + j)) = trim (content (contextLines hunk ! j))"
  shows "applyHunk buf hunk off =
     Inl ''Context validation failed: Hunk extends beyond end of file''"
proof -
  have "validateLines buf (contextLines hunk) (int s) = Inl ''Hunk extends beyond end of file''"
    using assms(2-4) contextLines_not_Add by (intro validateLines_overrun) auto
  then show ?thesis
    using assms(1,2) by (simp add: applyHunk_def Let_def validateHunkContext_def)
qed


section \<open>Claims about applying a diff\<close>

text \<open>
  C1. Before a hunk changes the buffer, its context and remove lines are compared in
  order, trimmed, with the buffer lines from the hunk's start (\<open>oldStart\<close> plus the
  running offset of the hunks applied before, minus one). If some comparison differs,
  \<^verbatim>\<open>applyCodeDiff\<close> fails, and its error gives the 1-based number of the first line
  that differs, the trimmed content the patch expected there, and the trimmed content
  of the buffer line.
\<close>

theorem context_mismatch_reported:
  assumes "parseDiff diffString = Inr (pre @ hunk # post)"
    and "bufferAfter (splitLines originalContent) 0 pre = Some (buf, off)"
    and "int (oldStart hunk) + off - 1 = int s" and "s < length buf"
    and "k < length (contextLines hunk)" and "s + k < length buf"
    and "trim (buf ! (s + k)) \<noteq> trim (content (contextLines hunk ! k))"
  shows "\<exists>j\<le>k. (\<forall>i<j. trim (buf ! (s + i)) = trim (content (contextLines hunk ! i))) \<and>
     trim (buf ! (s + j)) \<noteq> trim (content (contextLines hunk ! j)) \<and>
     applyCodeDiff originalContent diffString =
       hunkFailure (length pre) (length (pre @ hunk # post))
         (''Context validation failed: Line '' @ showNat (s + j + 1)
          @ '' doesn't match expected content. Expected: ''
          @ dquote @ trim (content (contextLines hunk ! j)) @ dquote @ '', Got: '' @ dquote
          @ trim (buf ! (s + j)) @ dquote)"
proof -
  let ?P = "\<lambda>j. trim (buf ! (s + j)) \<noteq> trim (content (contextLines hunk ! j))"
  from first_mismatch [of ?P k, OF assms(7)]
  obtain j where j: "j \<le> k" "?P j" "\<forall>i<j. \<not> ?P i" by blast
  have "applyHunk buf hunk off =
     Inl (''Context validation failed: Line '' @ showNat (s + j + 1)
          @ '' doesn't match expected content. Expected: ''
          @ dquote @ trim (content (contextLines hunk ! j)) @ dquote @ '', Got: '' @ dquote
          @ trim (buf ! (s + j)) @ dquote)"
  proof (rule applyHunk_mismatch [OF assms(3,4)])
    show "j < length (contextLines hunk)" using j(1) assms(5) by simp
    show "s + j < length buf" using j(1) assms(6) by simp
    show "\<forall>i<j. trim (buf ! (s + i)) = trim (content (contextLines hunk ! i))"
      using j(3) by simp
    show "?P j" by (rule j(2))
  qed
  from applyCodeDiff_first_failure [OF assms(1,2) this] j show ?thesis by blast
qed

theorem context_mismatch_reported_witness:
  "applyCodeDiff (joinLines [''x'', ''y'', '''']) (joinLines [''@@ -1,1 +1,1 @@'', '' z'']) =
     hunkFailure 0 1
       (''Context validation failed: Line 1 doesn't match expected content. Expected: ''
        @ dquote @ ''z'' @ dquote @ '', Got: '' @ dquote @ ''x'' @ dquote)"
proof -
  let ?h = "\<lparr>oldStart = 1, oldLines = 1, newStart = 1, newLines = 1,
             lines = [\<lparr>type = Context, content = ''z''\<rparr>]\<rparr>"
  have p: "parseDiff (joinLines [''@@ -1,1 +1,1 @@'', '' z'']) = Inr ([] @ ?h # [])"
    by code_simp
  have b: "bufferAfter (splitLines (joinLines [''x'', ''y'', ''''])) 0 [] =
             Some ([''x'', ''y'', ''''], 0)"
    by simp
  have s: "int (oldStart ?h) + 0 - 1 = int 0" by simp
  have m: "trim ([''x'', ''y'', ''''] ! (0 + 0)) \<noteq> trim (content (contextLines ?h ! 0))"
    by code_simp
  have c: "(0::nat) < length (contextLines ?h)" by code_simp
  from context_mismatch_reported [OF p b s _ c _ m]
  show ?thesis
    by (simp add: contextLines_def trim_def isWhiteSpace_def showNat_digit)
qed


text \<open>
  C2. When a hunk of a diff fails (its start is out of bounds or its context does not
  validate), \<^verbatim>\<open>applyCodeDiff\<close> returns \<open>success = False\<close>, \<open>appliedHunks\<close> is the
  number of hunks before the failing one, and there is no \<open>newContent\<close>. A result with
  \<open>success = True\<close> has applied every hunk.
\<close>

theorem failure_counts_hunks_before:
  assumes "parseDiff diffString = Inr (pre @ hunk # post)"
    and "bufferAfter (splitLines originalContent) 0 pre = Some (buf, off)"
    and "applyHunk buf hunk off = Inl err"
  shows "success (applyCodeDiff originalContent diffString) = False
     \<and> appliedHunks (applyCodeDiff originalContent diffString) = length pre
     \<and> newContent (applyCodeDiff originalContent diffString) = None
     \<and> totalHunks (applyCodeDiff originalContent diffString) = length pre + 1 + length post
     \<and> (\<forall>t d. success (applyCodeDiff t d) \<longrightarrow>
           appliedHunks (applyCodeDiff t d) = totalHunks (applyCodeDiff t d))"
proof -
  have "success (applyCodeDiff t d) \<longrightarrow>
          appliedHunks (applyCodeDiff t d) = totalHunks (applyCodeDiff t d)" for t d
    using applyHunks_success [of _ "splitLines t" 0 0 _ "[]"]
    by (auto simp: applyCodeDiff_def split: sum.splits)
  with applyCodeDiff_first_failure [OF assms] show ?thesis
    by (simp add: hunkFailure_def)
qed

theorem failure_counts_hunks_before_witness:
  "success (applyCodeDiff (joinLines [''a'', ''b'', ''c''])
      (joinLines [''@@ -1,1 +1,1 @@'', ''-a'', ''+A'', ''@@ -3,1 +3,1 @@'', ''-x'', ''+y''])) = False
   \<and> appliedHunks (applyCodeDiff (joinLines [''a'', ''b'', ''c''])
      (joinLines [''@@ -1,1 +1,1 @@'', ''-a'', ''+A'', ''@@ -3,1 +3,1 @@'', ''-x'', ''+y''])) = 1
   \<and> newContent (applyCodeDiff (joinLines [''a'', ''b'', ''c''])
      (joinLines [''@@ -1,1 +1,1 @@'', ''-a'', ''+A'', ''@@ -3,1 +3,1 @@'', ''-x'', ''+y''])) = None
   \<and> appliedHunks (applyCodeDiff (joinLines [''a'', ''b'', ''c'', ''''])
      (joinLines [''--- a/f'', ''+++ b/f'', ''@@ -2,1 +2,1 @@'', ''-b'', ''+B''])) =
     totalHunks (applyCodeDiff (joinLines [''a'', ''b'', ''c'', ''''])
      (joinLines [''--- a/f'', ''+++ b/f'', ''@@ -2,1 +2,1 @@'', ''-b'', ''+B'']))"
proof -
  let ?h1 = "\<lparr>oldStart = 1, oldLines = 1, newStart = 1, newLines = 1,
              lines = [\<lparr>type = Remove, content = ''a''\<rparr>, \<lparr>type = Add, content = ''A''\<rparr>]\<rparr>"
  let ?h2 = "\<lparr>oldStart = 3, oldLines = 1, newStart = 3, newLines = 1,
              lines = [\<lparr>type = Remove, content = ''x''\<rparr>, \<lparr>type = Add, content = ''y''\<rparr>]\<rparr>"
  have p: "parseDiff (joinLines [''@@ -1,1 +1,1 @@'', ''-a'', ''+A'',
              ''@@ -3,1 +3,1 @@'', ''-x'', ''+y'']) = Inr ([?h1] @ ?h2 # [])"
    by code_simp
  have b: "bufferAfter (splitLines (joinLines [''a'', ''b'', ''c''])) 0 [?h1] =
             Some ([''A'', ''b'', ''c''], 0)"
    by code_simp
  have f: "applyHunk [''A'', ''b'', ''c''] ?h2 0 =
     Inl (''Context validation failed: Line 3 doesn't match expected content. Expected: ''
          @ dquote @ ''x'' @ dquote @ '', Got: '' @ dquote @ ''c'' @ dquote)"
    by code_simp
  have s: "success (applyCodeDiff (joinLines [''a'', ''b'', ''c'', ''''])
      (joinLines [''--- a/f'', ''+++ b/f'', ''@@ -2,1 +2,1 @@'', ''-b'', ''+B'']))"
    by code_simp
  from failure_counts_hunks_before [OF p b f] s show ?thesis by simp
qed

text \<open>
  C5. A hunk whose adjusted start lies outside the buffer makes \<^verbatim>\<open>applyCodeDiff\<close> fail
  with the error that the hunk start line is outside the file bounds; the line number in
  it is the decimal text of \<open>oldStart\<close> plus the offset when the numbers are safe
  integers. A hunk that starts inside the buffer, whose context and remove lines match
  the buffer up to its last line and go on beyond it, makes it fail with the error that
  the hunk extends beyond the end of the file. Both are results, not exceptions (the
  error is not the one of a \<^verbatim>\<open>catch\<close>), and neither error is the one of a content
  mismatch, which begins \<^verbatim>\<open>Context validation failed: Line\<close>.
\<close>

theorem bounds_errors_reported:
  assumes "parseDiff diffString = Inr (pre @ hunk # post)"
    and "bufferAfter (splitLines originalContent) 0 pre = Some (buf, off)"
  shows "(int (oldStart hunk) + off - 1 < 0 \<or> int (length buf) \<le> int (oldStart hunk) + off - 1
      \<longrightarrow> (\<exists>m. applyCodeDiff originalContent diffString =
            hunkFailure (length pre) (length (pre @ hunk # post))
              (''Hunk start line '' @ m
               @ '' is outside file bounds (1-'' @ showNat (length buf) @ '')'')))
     \<and> ((int (oldStart hunk) + off - 1 < 0 \<or> int (length buf) \<le> int (oldStart hunk) + off - 1)
          \<and> safeInteger (int (oldStart hunk)) \<and> safeInteger off
          \<and> safeInteger (int (oldStart hunk) + off)
      \<longrightarrow> applyCodeDiff originalContent diffString =
            hunkFailure (length pre) (length (pre @ hunk # post))
              (''Hunk start line '' @ showInt (int (oldStart hunk) + off)
               @ '' is outside file bounds (1-'' @ showNat (length buf) @ '')''))
     \<and> (\<forall>s. int (oldStart hunk) + off - 1 = int s \<and> s < length buf
            \<and> length buf - s < length (contextLines hunk)
            \<and> (\<forall>j<length buf - s.
                  trim (buf ! (s + j)) = trim (content (contextLines hunk ! j)))
      \<longrightarrow> applyCodeDiff originalContent diffString =
            hunkFailure (length pre) (length (pre @ hunk # post))
              ''Context validation failed: Hunk extends beyond end of file'')
     \<and> (\<forall>m n x. ''Hunk start line '' @ m @ '' is outside file bounds (1-'' @ n @ '')''
            \<noteq> ''Context validation failed: Line '' @ x)
     \<and> (\<forall>x. ''Context validation failed: Hunk extends beyond end of file''
            \<noteq> ''Context validation failed: Line '' @ x)"
proof -
  have out: "applyCodeDiff originalContent diffString =
          hunkFailure (length pre) (length (pre @ hunk # post))
            (''Hunk start line '' @ showInt (int (oldStart hunk) + off)
             @ '' is outside file bounds (1-'' @ showNat (length buf) @ '')'')"
    if "int (oldStart hunk) + off - 1 < 0 \<or> int (length buf) \<le> int (oldStart hunk) + off - 1"
    using applyCodeDiff_first_failure [OF assms applyHunk_out_of_bounds [OF that]] .
  have over: "applyCodeDiff originalContent diffString =
          hunkFailure (length pre) (length (pre @ hunk # post))
            ''Context validation failed: Hunk extends beyond end of file''"
    if a: "int (oldStart hunk) + off - 1 = int s \<and> s < length buf
            \<and> length buf - s < length (contextLines hunk)
            \<and> (\<forall>j<length buf - s.
                  trim (buf ! (s + j)) = trim (content (contextLines hunk ! j)))" for s
  proof -
    from a have "applyHunk buf hunk off =
        Inl ''Context validation failed: Hunk extends beyond end of file''"
      by (intro applyHunk_overrun [of hunk off s buf]) auto
    from applyCodeDiff_first_failure [OF assms this] show ?thesis .
  qed
  have d1: "''Hunk start line '' @ m @ '' is outside file bounds (1-'' @ n @ '')''
          \<noteq> ''Context validation failed: Line '' @ x" for m n x :: string
    by simp
  have d2: "''Context validation failed: Hunk extends beyond end of file''
          \<noteq> ''Context validation failed: Line '' @ x" for x :: string
    by simp
  from out over d1 d2 show ?thesis by blast
qed

theorem bounds_errors_reported_witness:
  "applyCodeDiff (joinLines [''a'', ''b'', ''c'', ''''])
      (joinLines [''--- a/f'', ''+++ b/f'', ''@@ -9,1 +9,1 @@'', ''-b'', ''+B'']) =
     hunkFailure 0 1 ''Hunk start line 9 is outside file bounds (1-4)''
   \<and> applyCodeDiff ''a'' (joinLines [''@@ -1 +1,2 @@'', '' a'', ''+b'', '''']) =
     hunkFailure 0 1 ''Context validation failed: Hunk extends beyond end of file''"
proof -
  let ?h1 = "\<lparr>oldStart = 9, oldLines = 1, newStart = 9, newLines = 1,
              lines = [\<lparr>type = Remove, content = ''b''\<rparr>, \<lparr>type = Add, content = ''B''\<rparr>]\<rparr>"
  let ?h2 = "\<lparr>oldStart = 1, oldLines = 1, newStart = 1, newLines = 2,
              lines = [\<lparr>type = Context, content = ''a''\<rparr>, \<lparr>type = Add, content = ''b''\<rparr>,
                       \<lparr>type = Context, content = ''''\<rparr>]\<rparr>"
  have p1: "parseDiff (joinLines [''--- a/f'', ''+++ b/f'', ''@@ -9,1 +9,1 @@'', ''-b'', ''+B''])
              = Inr ([] @ ?h1 # [])"
    by code_simp
  have b1: "bufferAfter (splitLines (joinLines [''a'', ''b'', ''c'', ''''])) 0 [] =
              Some ([''a'', ''b'', ''c'', ''''], 0)"
    by simp
  have p2: "parseDiff (joinLines [''@@ -1 +1,2 @@'', '' a'', ''+b'', '''']) = Inr ([] @ ?h2 # [])"
    by code_simp
  have b2: "bufferAfter (splitLines ''a'') 0 [] = Some ([''a''], 0)"
    by simp
  from bounds_errors_reported [OF p1 b1] have
    "applyCodeDiff (joinLines [''a'', ''b'', ''c'', ''''])
        (joinLines [''--- a/f'', ''+++ b/f'', ''@@ -9,1 +9,1 @@'', ''-b'', ''+B'']) =
       hunkFailure 0 1 ''Hunk start line 9 is outside file bounds (1-4)''"
    by (simp add: showInt_def showNat_digit safeInteger_def)
  moreover from bounds_errors_reported [OF p2 b2] have
    "applyCodeDiff ''a'' (joinLines [''@@ -1 +1,2 @@'', '' a'', ''+b'', '''']) =
       hunkFailure 0 1 ''Context validation failed: Hunk extends beyond end of file''"
    by (simp add: contextLines_def trim_def isWhiteSpace_def)
  ultimately show ?thesis by simp
qed

text \<open>
  C10, as the code has it. A hunk whose adjusted start (\<open>oldStart\<close> plus the running
  offset) is greater than the number of lines of the buffer it is applied to is rejected
  with the out-of-bounds error, whatever its lines are: also a hunk of add lines only
  that starts right after the last line. The line number in the error is the decimal
  text of the adjusted start when the numbers are safe integers. Content can still be
  inserted after the last line, by a hunk that starts at or before it and passes it as a
  context line.
\<close>

theorem start_after_last_line_rejected:
  assumes "parseDiff diffString = Inr (pre @ hunk # post)"
    and "bufferAfter (splitLines originalContent) 0 pre = Some (buf, off)"
    and "int (length buf) < int (oldStart hunk) + off"
  shows "(\<exists>m. applyCodeDiff originalContent diffString =
       hunkFailure (length pre) (length (pre @ hunk # post))
         (''Hunk start line '' @ m
          @ '' is outside file bounds (1-'' @ showNat (length buf) @ '')''))
     \<and> (safeInteger (int (oldStart hunk)) \<and> safeInteger off
          \<and> safeInteger (int (oldStart hunk) + off)
      \<longrightarrow> applyCodeDiff originalContent diffString =
       hunkFailure (length pre) (length (pre @ hunk # post))
         (''Hunk start line '' @ showInt (int (oldStart hunk) + off)
          @ '' is outside file bounds (1-'' @ showNat (length buf) @ '')''))"
proof -
  from assms(3)
  have "int (oldStart hunk) + off - 1 < 0 \<or> int (length buf) \<le> int (oldStart hunk) + off - 1"
    by simp
  from applyCodeDiff_first_failure [OF assms(1,2) applyHunk_out_of_bounds [OF this]]
  show ?thesis by blast
qed

theorem start_after_last_line_rejected_witness:
  "applyCodeDiff ''a'' (joinLines [''@@ -2,0 +2,1 @@'', ''+b'']) =
     hunkFailure 0 1 ''Hunk start line 2 is outside file bounds (1-1)''"
proof -
  let ?h = "\<lparr>oldStart = 2, oldLines = 0, newStart = 2, newLines = 1,
             lines = [\<lparr>type = Add, content = ''b''\<rparr>]\<rparr>"
  have p: "parseDiff (joinLines [''@@ -2,0 +2,1 @@'', ''+b'']) = Inr ([] @ ?h # [])"
    by code_simp
  have b: "bufferAfter (splitLines ''a'') 0 [] = Some ([''a''], 0)"
    by simp
  have "int (length [''a'']) < int (oldStart ?h) + 0" by simp
  from start_after_last_line_rejected [OF p b this] show ?thesis
    by (simp add: showInt_def showNat_digit safeInteger_def)
qed

text \<open>
  C10 as stated fails in its last part: a hunk that starts at the last line and passes it
  as a context line inserts its add line after the last line of the buffer.
\<close>

theorem insert_after_last_line_counterexample:
  "applyCodeDiff ''a'' (joinLines [''@@ -1 +1,2 @@'', '' a'', ''+b'']) =
     \<lparr>success = True, newContent = Some (joinLines [''a'', ''b'']), error = None,
      appliedHunks = 1, totalHunks = 1, warnings = []\<rparr>"
  by code_simp


section \<open>Facts and claims about parsing\<close>

lemma parseDiffLoop_no_hunks:
  assumes "\<forall>l\<in>set inputLines. \<not> startsWith l ''@@''"
  shows "parseDiffLoop inputLines i hunks = Inr hunks"
proof (induction n \<equiv> "length inputLines - i" arbitrary: i)
  case 0
  then have "\<not> i < length inputLines" by simp
  then show ?case by (subst parseDiffLoop.simps) simp
next
  case (Suc n)
  then have lt: "i < length inputLines" by simp
  then have "\<not> startsWith (inputLines ! i) ''@@''" using assms by simp
  with lt have "parseDiffLoop inputLines i hunks = parseDiffLoop inputLines (i + 1) hunks"
    by (subst parseDiffLoop.simps) simp
  moreover have "parseDiffLoop inputLines (i + 1) hunks = Inr hunks"
    using Suc.hyps(2) by (intro Suc.hyps(1)) simp
  ultimately show ?case by simp
qed

text \<open>
  C6 fails on the code. The loop of \<^verbatim>\<open>parseHunk\<close> also stops once it has collected
  \<open>max oldLines newLines + 10\<close> lines. A hunk \<^verbatim>\<open>@@ -1,11 +1,11 @@\<close> that replaces
  eleven lines has 22 body lines; the loop takes 21 of them and returns the index of
  the last one, \<^verbatim>\<open>+K\<close>, which is neither a hunk header nor a file header nor the end
  of the input. \<^verbatim>\<open>parseDiff\<close> then skips that line, and \<^verbatim>\<open>applyCodeDiff\<close> reports
  success with a text that lacks the line \<^verbatim>\<open>K\<close>.
\<close>

theorem hunk_body_cut_short:
  "parseHunk
     ([''--- a/f'', ''+++ b/f'', ''@@ -1,11 +1,11 @@'']
      @ map (\<lambda>c. [CHR ''-'', c]) ''abcdefghijk'' @ map (\<lambda>c. [CHR ''+'', c]) ''ABCDEFGHIJK'') 2 =
     Inr (\<lparr>oldStart = 1, oldLines = 11, newStart = 1, newLines = 11,
           lines = map (\<lambda>c. \<lparr>type = Remove, content = [c]\<rparr>) ''abcdefghijk''
                   @ map (\<lambda>c. \<lparr>type = Add, content = [c]\<rparr>) ''ABCDEFGHIJ''\<rparr>, 24)
   \<and> ([''--- a/f'', ''+++ b/f'', ''@@ -1,11 +1,11 @@'']
      @ map (\<lambda>c. [CHR ''-'', c]) ''abcdefghijk'' @ map (\<lambda>c. [CHR ''+'', c]) ''ABCDEFGHIJK'') ! 24
       = ''+K''
   \<and> \<not> isHunkEnd ''+K''
   \<and> applyCodeDiff (joinLines (map (\<lambda>c. [c]) ''abcdefghijk''))
        (joinLines ([''--- a/f'', ''+++ b/f'', ''@@ -1,11 +1,11 @@'']
           @ map (\<lambda>c. [CHR ''-'', c]) ''abcdefghijk''
           @ map (\<lambda>c. [CHR ''+'', c]) ''ABCDEFGHIJK'')) =
     \<lparr>success = True, newContent = Some (joinLines (map (\<lambda>c. [c]) ''ABCDEFGHIJ'')),
      error = None, appliedHunks = 1, totalHunks = 1, warnings = []\<rparr>"
  by code_simp

text \<open>
  C7. A diff whose parse gives no hunk makes \<^verbatim>\<open>applyCodeDiff\<close> fail with
  \<^verbatim>\<open>No valid hunks found in diff\<close>, \<open>appliedHunks = 0\<close> and \<open>totalHunks = 0\<close>; and a
  diff with no line that starts with \<^verbatim>\<open>@@\<close> parses, to the empty sequence of hunks.
\<close>

theorem no_hunks_rejected:
  "(parseDiff diffString = Inr [] \<longrightarrow>
      applyCodeDiff originalContent diffString =
        \<lparr>success = False, newContent = None, error = Some ''No valid hunks found in diff'',
         appliedHunks = 0, totalHunks = 0, warnings = []\<rparr>)
   \<and> ((\<forall>l\<in>set (splitLines diffString). \<not> startsWith l ''@@'') \<longrightarrow>
      parseDiff diffString = Inr [])"
  by (simp add: applyCodeDiff_def parseDiff_def parseDiffLoop_no_hunks)

theorem no_hunks_rejected_witness:
  "parseDiff (joinLines [''--- a/f'', ''+++ b/f'', '' a'', ''-b'']) = Inr []
   \<and> applyCodeDiff ''a'' (joinLines [''--- a/f'', ''+++ b/f'', '' a'', ''-b'']) =
        \<lparr>success = False, newContent = None, error = Some ''No valid hunks found in diff'',
         appliedHunks = 0, totalHunks = 0, warnings = []\<rparr>"
proof -
  have "\<forall>l\<in>set (splitLines (joinLines [''--- a/f'', ''+++ b/f'', '' a'', ''-b''])).
          \<not> startsWith l ''@@''"
    by (simp add: startsWith_def)
  with no_hunks_rejected [of "joinLines [''--- a/f'', ''+++ b/f'', '' a'', ''-b'']" "''a''"]
  show ?thesis by blast
qed


section \<open>Facts and claims about the safety classification\<close>

lemma countLine_hunkCount:
  "hunkCount (countLine s line) = hunkCount s + (if startsWith line ''@@'' then 1 else 0)"
  by (simp add: countLine_def)

lemma countLine_changed:
  "addedLines (countLine s line) + removedLines (countLine s line) =
     addedLines s + removedLines s + (if changedLine line then 1 else 0)"
proof (cases line)
  case Nil
  then show ?thesis by (simp add: countLine_def changedLine_def startsWith_def)
next
  case (Cons c cs)
  then show ?thesis
    by (cases cs) (auto simp: countLine_def changedLine_def startsWith_def)
qed

lemma scanLine_counts:
  "hunkCount (scanLine s line) = hunkCount s + (if startsWith line ''@@'' then 1 else 0)"
  "addedLines (scanLine s line) + removedLines (scanLine s line) =
     addedLines s + removedLines s + (if changedLine line then 1 else 0)"
  using countLine_hunkCount [of s line] countLine_changed [of s line]
  by (simp_all add: scanLine_def flagExecution_def flagDestructive_def)

lemma foldl_scanLine_hunkCount:
  "hunkCount (foldl scanLine s ls) =
     hunkCount s + length (filter (\<lambda>l. startsWith l ''@@'') ls)"
  by (induction ls arbitrary: s) (simp_all add: scanLine_counts(1))

lemma foldl_scanLine_changed:
  "addedLines (foldl scanLine s ls) + removedLines (foldl scanLine s ls) =
     addedLines s + removedLines s + length (filter changedLine ls)"
  by (induction ls arbitrary: s) (simp_all add: scanLine_counts(2))

text \<open>
  C8. If more than 5 lines of the diff start with \<^verbatim>\<open>@@\<close>, or more than 50 of its lines
  are changed lines, then the level is \<open>Caution\<close> or \<open>Review\<close> and the issues contain
  the finding about the size of the diff.
\<close>

theorem large_diff_flagged:
  assumes "5 < length (filter (\<lambda>l. startsWith l ''@@'') (splitLines diffString))
           \<or> 50 < length (filter changedLine (splitLines diffString))"
  shows "(level (validateDiffSafety diffString) = Caution
          \<or> level (validateDiffSafety diffString) = Review)
     \<and> ''Large diff - consider manual review'' \<in> set (issues (validateDiffSafety diffString))"
proof -
  let ?init = "\<lparr>addedLines = 0, removedLines = 0, hunkCount = 0, found = [], scanLevel = Safe\<rparr>"
  let ?scan = "foldl scanLine ?init (splitLines diffString)"
  have "hunkCount ?scan = length (filter (\<lambda>l. startsWith l ''@@'') (splitLines diffString))"
    using foldl_scanLine_hunkCount [of ?init "splitLines diffString"] by simp
  moreover have "addedLines ?scan + removedLines ?scan =
      length (filter changedLine (splitLines diffString))"
    using foldl_scanLine_changed [of ?init "splitLines diffString"] by simp
  ultimately have large: "hunkCount ?scan > 5 \<or> addedLines ?scan + removedLines ?scan > 50"
    using assms by simp
  then show ?thesis
    by (cases "scanLevel ?scan") (simp_all add: validateDiffSafety_def Let_def)
qed

theorem large_diff_flagged_witness:
  "(level (validateDiffSafety (joinLines (concat (replicate 8
        (''@@ -1,5 +1,5 @@'' # replicate 5 ''-a'' @ replicate 5 ''+b''))))) = Caution
    \<or> level (validateDiffSafety (joinLines (concat (replicate 8
        (''@@ -1,5 +1,5 @@'' # replicate 5 ''-a'' @ replicate 5 ''+b''))))) = Review)
   \<and> ''Large diff - consider manual review'' \<in> set (issues (validateDiffSafety (joinLines
        (concat (replicate 8 (''@@ -1,5 +1,5 @@'' # replicate 5 ''-a'' @ replicate 5 ''+b''))))))"
proof -
  have "5 < length (filter (\<lambda>l. startsWith l ''@@'') (splitLines (joinLines (concat (replicate 8
          (''@@ -1,5 +1,5 @@'' # replicate 5 ''-a'' @ replicate 5 ''+b''))))))
        \<or> 50 < length (filter changedLine (splitLines (joinLines (concat (replicate 8
          (''@@ -1,5 +1,5 @@'' # replicate 5 ''-a'' @ replicate 5 ''+b''))))))"
    by code_simp
  from large_diff_flagged [OF this] show ?thesis .
qed

text \<open>
  C9, as the code has it. The \<open>safe\<close> field is true exactly when the level is not
  \<open>Review\<close>: it is true at \<open>Safe\<close> and at \<open>Caution\<close>, and false at \<open>Review\<close>.
\<close>

theorem safe_iff_not_review:
  "safe (validateDiffSafety diffString) = (level (validateDiffSafety diffString) \<noteq> Review)"
  by (simp add: validateDiffSafety_def Let_def)

text \<open>
  C9 as stated fails: six hunk headers give the level \<open>Caution\<close>, and \<open>safe\<close> is true.
\<close>

theorem safe_at_caution_counterexample:
  "level (validateDiffSafety (joinLines (replicate 6 ''@@ -1 +1 @@''))) = Caution
   \<and> safe (validateDiffSafety (joinLines (replicate 6 ''@@ -1 +1 @@'')))"
  by code_simp

section \<open>Facts and claims about generating a diff\<close>

lemma splitLines_no_nl: "nl \<notin> set a \<Longrightarrow> splitLines a = [a]"
  by (induction a) auto

lemma splitLines_append_nl: "nl \<notin> set a \<Longrightarrow> splitLines (a @ nl # b) = a # splitLines b"
  by (induction a) auto

lemma changeRange_same: "changeRange xs xs = (-1, -1)"
proof -
  have "foldl (changeStep xs xs) r is = r" for r "is"
    by (induction "is") (simp_all add: changeStep_def)
  then show ?thesis by (simp add: changeRange_def)
qed

lemma generateDiff_same:
  "generateDiff t t filePath = ''--- a/'' @ filePath @ [nl] @ ''+++ b/'' @ filePath @ [nl]"
  by (simp add: generateDiff_def Let_def changeRange_same)

lemma header_lines:
  assumes "nl \<notin> set filePath"
  shows "splitLines (''--- a/'' @ filePath @ [nl] @ ''+++ b/'' @ filePath @ [nl]) =
     [''--- a/'' @ filePath, ''+++ b/'' @ filePath, []]"
proof -
  have a: "nl \<notin> set (''--- a/'' @ filePath)" and b: "nl \<notin> set (''+++ b/'' @ filePath)"
    using assms by auto
  have "splitLines ((''--- a/'' @ filePath) @ nl # ((''+++ b/'' @ filePath) @ nl # [])) =
     (''--- a/'' @ filePath) # (''+++ b/'' @ filePath) # splitLines []"
    by (simp only: splitLines_append_nl [OF a] splitLines_append_nl [OF b])
  then show ?thesis by simp
qed

text \<open>
  C4, as the code has it. \<^verbatim>\<open>generateDiff\<close> of a text with itself is the two file
  header lines and no hunk. For a path without a line feed, \<^verbatim>\<open>applyCodeDiff\<close> rejects
  that diff: it has no hunk, so the result is the failure
  \<^verbatim>\<open>No valid hunks found in diff\<close>, without \<open>newContent\<close>.
\<close>

theorem header_only_diff_rejected:
  "generateDiff t t filePath = ''--- a/'' @ filePath @ [nl] @ ''+++ b/'' @ filePath @ [nl]
   \<and> (nl \<notin> set filePath \<longrightarrow>
        applyCodeDiff t (generateDiff t t filePath) =
          \<lparr>success = False, newContent = None, error = Some ''No valid hunks found in diff'',
           appliedHunks = 0, totalHunks = 0, warnings = []\<rparr>)"
proof (intro conjI impI)
  show "generateDiff t t filePath = ''--- a/'' @ filePath @ [nl] @ ''+++ b/'' @ filePath @ [nl]"
    by (rule generateDiff_same)
next
  assume p: "nl \<notin> set filePath"
  have "\<forall>l\<in>set (splitLines (generateDiff t t filePath)). \<not> startsWith l ''@@''"
    by (simp only: generateDiff_same header_lines [OF p]) (simp add: startsWith_def)
  then have "parseDiff (generateDiff t t filePath) = Inr []"
    by (simp add: parseDiff_def parseDiffLoop_no_hunks)
  then show "applyCodeDiff t (generateDiff t t filePath) =
          \<lparr>success = False, newContent = None, error = Some ''No valid hunks found in diff'',
           appliedHunks = 0, totalHunks = 0, warnings = []\<rparr>"
    by (simp add: applyCodeDiff_def)
qed

theorem header_only_diff_rejected_witness:
  "generateDiff (joinLines [''a'', ''b'']) (joinLines [''a'', ''b'']) ''f.ts'' =
     ''--- a/'' @ ''f.ts'' @ [nl] @ ''+++ b/'' @ ''f.ts'' @ [nl]
   \<and> applyCodeDiff (joinLines [''a'', ''b''])
        (generateDiff (joinLines [''a'', ''b'']) (joinLines [''a'', ''b'']) ''f.ts'') =
          \<lparr>success = False, newContent = None, error = Some ''No valid hunks found in diff'',
           appliedHunks = 0, totalHunks = 0, warnings = []\<rparr>"
proof -
  have "nl \<notin> set ''f.ts''" by simp
  with header_only_diff_rejected [of "joinLines [''a'', ''b'']" "''f.ts''"]
  show ?thesis by blast
qed

text \<open>
  C4 as stated fails: applying the header-only diff does not return the text.
\<close>

theorem header_only_diff_counterexample:
  "newContent (applyCodeDiff ''a'' (generateDiff ''a'' ''a'' ''f.ts'')) \<noteq> Some ''a''"
  by code_simp

text \<open>
  C3 fails on the code. For a text of three lines and a final line feed, and the same
  text with the second line replaced, \<^verbatim>\<open>generateDiff\<close> gives one hunk over the four
  buffer lines. Its text ends with a line feed, so the split leaves an empty last piece,
  which \<^verbatim>\<open>parseHunk\<close> takes as a fifth context line; validation then runs past the
  end of the buffer and the hunk is rejected.
\<close>

theorem round_trip_fails:
  "generateDiff (joinLines [''a'', ''b'', ''c'', '''']) (joinLines [''a'', ''B'', ''c'', '''']) ''f.ts'' =
     joinLines [''--- a/f.ts'', ''+++ b/f.ts'', ''@@ -1,4 +1,4 @@'',
                '' a'', ''-b'', ''+B'', '' c'', '' '', '''']
   \<and> parseDiff (generateDiff (joinLines [''a'', ''b'', ''c'', ''''])
                  (joinLines [''a'', ''B'', ''c'', '''']) ''f.ts'') =
     Inr [\<lparr>oldStart = 1, oldLines = 4, newStart = 1, newLines = 4,
           lines = [\<lparr>type = Context, content = ''a''\<rparr>, \<lparr>type = Remove, content = ''b''\<rparr>,
                    \<lparr>type = Add, content = ''B''\<rparr>, \<lparr>type = Context, content = ''c''\<rparr>,
                    \<lparr>type = Context, content = ''''\<rparr>, \<lparr>type = Context, content = ''''\<rparr>]\<rparr>]
   \<and> applyCodeDiff (joinLines [''a'', ''b'', ''c'', ''''])
        (generateDiff (joinLines [''a'', ''b'', ''c'', ''''])
           (joinLines [''a'', ''B'', ''c'', '''']) ''f.ts'') =
     hunkFailure 0 1 ''Context validation failed: Hunk extends beyond end of file''"
  by code_simp


end
